theory Spec2Isabelle
  imports Main "HOL-Library.AList"
begin

section \<open>Values, exceptions and the store\<close>

text \<open>
  The subscriber store \<^verbatim>\<open>DB\<close> of \<^verbatim>\<open>app.py\<close> is a Python dict read from a JSON file and
  written back whole. Its values are whatever JSON holds, so the model keeps a datatype of
  JSON-shaped Python values. A dict is an association list in insertion order; assigning
  to a key is \<open>AList.update\<close> (replace in place, or append a new key), which is what
  Python's dict does. JSON floats are left out. A Python \<^verbatim>\<open>str\<close> is modelled by
  \<open>string\<close>, one \<open>char\<close> per code point, so the model covers the code points below 256.
\<close>

datatype pyval =
    PNone
  | PBool bool
  | PInt int
  | PStr string
  | PList "pyval list"
  | PDict "(string \<times> pyval) list"

datatype exn = AttributeError | ValueError | TypeError | KeyError | OSError | TelegramError

type_synonym db = "(string \<times> pyval) list"

text \<open>What the handlers hand to the Telegram bot as message text: the invite link after a
  payment, or the renewal prompt with the pay link of a store key.\<close>

datatype message = InviteMsg string | RejoinMsg string

text \<open>The calls that leave the process, in the order they are made.\<close>

datatype effect =
    Lookup string
  | CreateInvite int
  | Ban int
  | Unban int
  | SendDM int message
  | SpawnDM int message
  | SaveDB db

text \<open>
  \<open>DB\<close> is the module-level dict, \<open>disk\<close> the mapping last written to
  \<^verbatim>\<open>data/subscribers.json\<close>, \<open>trace\<close> the external calls made so far.
\<close>

record world =
  DB :: db
  disk :: db
  trace :: "effect list"

text \<open>
  Everything the handlers read from outside: the answer of
  \<^verbatim>\<open>im_get_payment_request\<close> (\<open>None\<close> when it raises), \<^verbatim>\<open>json.loads\<close>, the outcome of
  \<^verbatim>\<open>create_single_use_invite\<close>, the clock (whole epoch seconds, and the ISO text written
  beside a store key), whether banning and unbanning a user raise, and whether
  \<^verbatim>\<open>save_db\<close> raises.
\<close>

record env =
  im_get_payment_request :: "string \<Rightarrow> pyval option"
  json_loads :: "string \<Rightarrow> pyval option"
  create_single_use_invite :: "string option"
  now_ts :: int
  iso_at :: "string \<Rightarrow> string"
  ban_ok :: "int \<Rightarrow> bool"
  unban_ok :: "int \<Rightarrow> bool"
  save_ok :: bool

record config =
  SUBSCRIPTION_DAYS :: int
  INVITE_LINK_TTL_SECONDS :: int

definition log_effect :: "effect \<Rightarrow> world \<Rightarrow> world" where
  "log_effect e w = w\<lparr>trace := trace w @ [e]\<rparr>"

section \<open>The Python primitives the handlers use\<close>

definition truthy :: "pyval \<Rightarrow> bool" where
  "truthy v = (case v of
       PNone \<Rightarrow> False
     | PBool b \<Rightarrow> b
     | PInt n \<Rightarrow> n \<noteq> 0
     | PStr s \<Rightarrow> s \<noteq> []
     | PList xs \<Rightarrow> xs \<noteq> []
     | PDict fs \<Rightarrow> fs \<noteq> [])"

text \<open>\<^verbatim>\<open>x.get(k, d)\<close>: only a dict has the method.\<close>

definition py_get :: "pyval \<Rightarrow> string \<Rightarrow> pyval \<Rightarrow> exn + pyval" where
  "py_get x k d = (case x of
       PDict fs \<Rightarrow> (case map_of fs k of Some v \<Rightarrow> Inr v | None \<Rightarrow> Inr d)
     | _ \<Rightarrow> Inl AttributeError)"

definition is_decimal :: "char \<Rightarrow> bool" where
  "is_decimal c = (c \<in> set ''0123456789'')"

text \<open>\<^verbatim>\<open>str.isdigit\<close> also accepts the superscript digits U+00B2, U+00B3 and U+00B9.\<close>

definition isdigit_char :: "char \<Rightarrow> bool" where
  "isdigit_char c = (is_decimal c \<or> c \<in> set [CHR 0xB2, CHR 0xB3, CHR 0xB9])"

definition str_isdigit :: "string \<Rightarrow> bool" where
  "str_isdigit s = (s \<noteq> [] \<and> list_all isdigit_char s)"

text \<open>The characters that \<^verbatim>\<open>int\<close> strips from both ends of a string. This is not the
  set of \<^verbatim>\<open>str.isspace\<close>: the separators U+001C to U+001F are not stripped, and a
  string that holds one is a \<^verbatim>\<open>ValueError\<close>.\<close>

definition is_space :: "char \<Rightarrow> bool" where
  "is_space c = (c \<in> set [CHR 0x09, CHR 0x0A, CHR 0x0B, CHR 0x0C, CHR 0x0D,
       CHR 0x20, CHR 0x85, CHR 0xA0])"

definition digit_val :: "char \<Rightarrow> int" where
  "digit_val c = of_char c - 48"

text \<open>
  The digits of an \<^verbatim>\<open>int\<close> literal: decimal digits, single underscores between them.
  The flag says that the previous character was a digit.
\<close>

fun parse_digits :: "bool \<Rightarrow> int \<Rightarrow> string \<Rightarrow> int option" where
  "parse_digits prev acc [] = (if prev then Some acc else None)"
| "parse_digits prev acc (c # cs) =
     (if is_decimal c then parse_digits True (10 * acc + digit_val c) cs
      else if c = CHR ''_'' \<and> prev then parse_digits False acc cs
      else None)"

definition strip :: "string \<Rightarrow> string" where
  "strip s = dropWhile is_space (rev (dropWhile is_space (rev s)))"

text \<open>\<^verbatim>\<open>int(s)\<close> on a string: surrounding whitespace, an optional sign, the digits;
  \<open>None\<close> is \<^verbatim>\<open>ValueError\<close>. The interpreter's limit on the number of digits is not
  modelled.\<close>

definition py_int_str :: "string \<Rightarrow> int option" where
  "py_int_str s = (case strip s of
       c # cs \<Rightarrow>
         (if c = CHR ''-'' then map_option uminus (parse_digits False 0 cs)
          else if c = CHR ''+'' then parse_digits False 0 cs
          else parse_digits False 0 (c # cs))
     | [] \<Rightarrow> None)"

definition py_int :: "pyval \<Rightarrow> exn + int" where
  "py_int v = (case v of
       PInt n \<Rightarrow> Inr n
     | PBool b \<Rightarrow> Inr (if b then 1 else 0)
     | PStr s \<Rightarrow> (case py_int_str s of Some n \<Rightarrow> Inr n | None \<Rightarrow> Inl ValueError)
     | _ \<Rightarrow> Inl TypeError)"

fun digits_of :: "nat \<Rightarrow> string" where
  "digits_of n =
     (if n < 10 then [char_of (48 + n)]
      else digits_of (n div 10) @ [char_of (48 + n mod 10)])"

definition py_str_int :: "int \<Rightarrow> string" where
  "py_str_int n = (if n < 0 then CHR ''-'' # digits_of (nat (- n)) else digits_of (nat n))"

text \<open>\<^verbatim>\<open>str(v)\<close>. The text of a container starts with its bracket; the inside is elided,
  since the only reader of the result is \<^verbatim>\<open>isdigit\<close>.\<close>

definition py_str :: "pyval \<Rightarrow> string" where
  "py_str v = (case v of
       PNone \<Rightarrow> ''None''
     | PBool b \<Rightarrow> (if b then ''True'' else ''False'')
     | PInt n \<Rightarrow> py_str_int n
     | PStr s \<Rightarrow> s
     | PList xs \<Rightarrow> ''[...]''
     | PDict fs \<Rightarrow> ''{...}'')"

declare digits_of.simps [simp del]

section \<open>The payment webhook\<close>

text \<open>
  \<^verbatim>\<open>instamojo_webhook\<close>, lines 129 to 151: from the posted form to the Telegram id of
  the payer. Each \<^verbatim>\<open>return ..., 200\<close> is a \<open>Reply\<close>; an exception that no handler of the
  function catches is \<open>Uncaught\<close> (the framework answers it with status 500).
\<close>

datatype verdict = Reply string nat | Uncaught exn | Verified int

definition accepted_status :: "pyval list" where
  "accepted_status = [PStr ''Completed'', PStr ''Credit'', PStr ''Success'']"

definition form_req_id :: "(string \<rightharpoonup> string) \<Rightarrow> string" where
  "form_req_id form =
     (case form ''payment_request_id'' of
        Some (c # cs) \<Rightarrow> c # cs
      | _ \<Rightarrow> (case form ''payment_request'' of Some (c # cs) \<Rightarrow> c # cs | _ \<Rightarrow> []))"

text \<open>Lines 144 to 147: the metadata, decoded when the gateway returns it as text.\<close>

definition metadata_of :: "env \<Rightarrow> pyval \<Rightarrow> exn + pyval" where
  "metadata_of e pr =
     (case py_get pr ''metadata'' PNone of
        Inl x \<Rightarrow> Inl x
      | Inr m \<Rightarrow>
          (let meta = (if truthy m then m else PDict [])
           in case meta of
                PStr s \<Rightarrow> (case json_loads e s of Some v \<Rightarrow> Inr v | None \<Rightarrow> Inr (PDict []))
              | _ \<Rightarrow> Inr meta))"

text \<open>Lines 139 to 151, on the payment request the gateway returned.\<close>

definition identity_of :: "env \<Rightarrow> pyval \<Rightarrow> verdict" where
  "identity_of e pr =
     (case py_get (if truthy pr then pr else PDict []) ''status'' (PStr []) of
        Inl x \<Rightarrow> Uncaught x
      | Inr status \<Rightarrow>
          if status \<notin> set accepted_status then Reply ''ignored'' 200
          else (case metadata_of e pr of
                  Inl x \<Rightarrow> Uncaught x
                | Inr meta \<Rightarrow>
                    (case py_get meta ''telegram_user_id'' (PStr []) of
                       Inl x \<Rightarrow> Uncaught x
                     | Inr v \<Rightarrow>
                         (let tg_id_str = py_str v
                          in if \<not> str_isdigit tg_id_str then Reply ''no user'' 200
                             else (case py_int_str tg_id_str of
                                     None \<Rightarrow> Uncaught ValueError
                                   | Some tg_id \<Rightarrow> Verified tg_id)))))"

definition verify_payment :: "env \<Rightarrow> (string \<rightharpoonup> string) \<Rightarrow> world \<Rightarrow> verdict \<times> world" where
  "verify_payment e form w =
     (let req_id = form_req_id form
      in if req_id = [] then (Reply ''missing request id'' 200, w)
         else (let w1 = log_effect (Lookup req_id) w
               in case im_get_payment_request e req_id of
                    None \<Rightarrow> (Reply ''verify failed'' 200, w1)
                  | Some pr \<Rightarrow> (identity_of e pr, w1)))"

text \<open>
  Lines 153 to 172, the activation. The expiry is the clock plus
  \<^verbatim>\<open>SUBSCRIPTION_DAYS\<close> days, in whole seconds (the zone has no daylight saving, and the
  sum is taken to stay within the range of \<^verbatim>\<open>datetime\<close>). The record is put into \<open>DB\<close> before
  \<^verbatim>\<open>save_db\<close> runs; \<^verbatim>\<open>except Exception: pass\<close> swallows a failure of the issuer or of the
  save, and the handler answers \<^verbatim>\<open>"ok", 200\<close> either way.
\<close>

definition new_record :: "config \<Rightarrow> env \<Rightarrow> string \<Rightarrow> pyval" where
  "new_record cfg e key = PDict
     [(''expiry_ts'', PInt (now_ts e + 86400 * SUBSCRIPTION_DAYS cfg)),
      (''last_payment'', PStr (iso_at e key)),
      (''status'', PStr ''active'')]"

definition activate :: "config \<Rightarrow> env \<Rightarrow> int \<Rightarrow> world \<Rightarrow> (exn + string \<times> nat) \<times> world" where
  "activate cfg e tg_id w =
     (let w1 = log_effect (CreateInvite (max 60 (INVITE_LINK_TTL_SECONDS cfg))) w
      in case create_single_use_invite e of
           None \<Rightarrow> (Inr (''ok'', 200), w1)
         | Some invite \<Rightarrow>
             (let key = py_str_int tg_id;
                  db' = AList.update key (new_record cfg e key) (DB w1);
                  w2 = log_effect (SaveDB db') (w1\<lparr>DB := db'\<rparr>)
              in if \<not> save_ok e then (Inr (''ok'', 200), w2)
                 else (Inr (''ok'', 200),
                       log_effect (SpawnDM tg_id (InviteMsg invite)) (w2\<lparr>disk := db'\<rparr>))))"

definition instamojo_webhook ::
  "config \<Rightarrow> env \<Rightarrow> (string \<rightharpoonup> string) \<Rightarrow> world \<Rightarrow> (exn + string \<times> nat) \<times> world" where
  "instamojo_webhook cfg e form w =
     (case verify_payment e form w of
        (Reply body code, w1) \<Rightarrow> (Inr (body, code), w1)
      | (Uncaught x, w1) \<Rightarrow> (Inl x, w1)
      | (Verified tg_id, w1) \<Rightarrow> activate cfg e tg_id w1)"

section \<open>The expiry sweep\<close>

text \<open>The condition of line 215. The second conjunct is evaluated only for an active
  record; a record without \<^verbatim>\<open>expiry_ts\<close> counts as expiring at 0.\<close>

definition is_due :: "int \<Rightarrow> pyval \<Rightarrow> exn + bool" where
  "is_due now rec =
     (case py_get rec ''status'' PNone of
        Inl x \<Rightarrow> Inl x
      | Inr st \<Rightarrow>
          if st \<noteq> PStr ''active'' then Inr False
          else (case py_get rec ''expiry_ts'' (PInt 0) of
                  Inl x \<Rightarrow> Inl x
                | Inr v \<Rightarrow> (case py_int v of Inl x \<Rightarrow> Inl x | Inr t \<Rightarrow> Inr (t \<le> now))))"

definition mark_expired :: "env \<Rightarrow> string \<Rightarrow> (string \<times> pyval) list \<Rightarrow> (string \<times> pyval) list" where
  "mark_expired e uid fs =
     AList.update ''expired_at'' (PStr (iso_at e uid))
       (AList.update ''status'' (PStr ''expired'') fs)"

text \<open>
  The body of the \<^verbatim>\<open>try\<close> of lines 214 to 228 for one item of the snapshot: \<open>Inr True\<close>
  when it reaches \<^verbatim>\<open>changed = True\<close>, \<open>Inr False\<close> when the condition is false, \<open>Inl\<close>
  when it raises. Calls made before a raise stay in the trace. \<^verbatim>\<open>DB[uid]\<close> is read from
  the store as it is then; in a dict, whose keys are distinct, that is the record of the
  snapshot. The outcome of a platform call is taken as a function of the user id.
\<close>

definition revoke_record :: "env \<Rightarrow> string \<Rightarrow> pyval \<Rightarrow> world \<Rightarrow> (exn + bool) \<times> world" where
  "revoke_record e uid rec w =
     (case is_due (now_ts e) rec of
        Inl x \<Rightarrow> (Inl x, w)
      | Inr False \<Rightarrow> (Inr False, w)
      | Inr True \<Rightarrow>
          (case py_int_str uid of
             None \<Rightarrow> (Inl ValueError, w)
           | Some n \<Rightarrow>
               (let w1 = log_effect (Ban n) w
                in if \<not> ban_ok e n then (Inl TelegramError, w1)
                   else (let w2 = log_effect (Unban n) w1
                         in if \<not> unban_ok e n then (Inl TelegramError, w2)
                            else (case map_of (DB w2) uid of
                                    None \<Rightarrow> (Inl KeyError, w2)
                                  | Some (PDict fs) \<Rightarrow>
                                      (Inr True,
                                       log_effect (SendDM n (RejoinMsg uid))
                                         (w2\<lparr>DB := AList.update uid (PDict (mark_expired e uid fs)) (DB w2)\<rparr>))
                                  | Some _ \<Rightarrow> (Inl TypeError, w2))))))"

text \<open>The loop of lines 213 to 230 over the snapshot \<^verbatim>\<open>list(DB.items())\<close>, with the flag
  \<^verbatim>\<open>changed\<close>; \<^verbatim>\<open>except Exception: continue\<close> drops the exception.\<close>

fun sweep_loop :: "env \<Rightarrow> (string \<times> pyval) list \<Rightarrow> world \<times> bool \<Rightarrow> world \<times> bool" where
  "sweep_loop e [] s = s"
| "sweep_loop e ((uid, rec) # items) (w, changed) =
     (case revoke_record e uid rec w of
        (Inl x, w') \<Rightarrow> sweep_loop e items (w', changed)
      | (Inr c, w') \<Rightarrow> sweep_loop e items (w', changed \<or> c))"

text \<open>\<^verbatim>\<open>expiry_job\<close>: nothing for an empty store, else the loop and one \<^verbatim>\<open>save_db\<close> when
  \<^verbatim>\<open>changed\<close> is set. A failing save is not caught here.\<close>

definition expiry_job :: "env \<Rightarrow> world \<Rightarrow> (exn + unit) \<times> world" where
  "expiry_job e w =
     (if DB w = [] then (Inr (), w)
      else (case sweep_loop e (DB w) (w, False) of
              (w1, changed) \<Rightarrow>
                if \<not> changed then (Inr (), w1)
                else (let w2 = log_effect (SaveDB (DB w1)) w1
                      in if save_ok e then (Inr (), w2\<lparr>disk := DB w1\<rparr>)
                         else (Inl OSError, w2))))"

section \<open>One iteration of the sweep, in closed form\<close>

text \<open>
  These functions say what one pass of the loop body does to a store item: whether both
  platform calls for the key go through, whether the item is marked expired, the item
  afterwards, and the calls made. The lemmas below prove that the loop computes exactly
  this on a store with distinct keys.
\<close>

definition revocable :: "env \<Rightarrow> string \<Rightarrow> bool" where
  "revocable e uid = (case py_int_str uid of None \<Rightarrow> False | Some n \<Rightarrow> ban_ok e n \<and> unban_ok e n)"

definition transitions :: "env \<Rightarrow> string \<times> pyval \<Rightarrow> bool" where
  "transitions e p = (is_due (now_ts e) (snd p) = Inr True \<and> revocable e (fst p))"

definition swept :: "env \<Rightarrow> string \<times> pyval \<Rightarrow> string \<times> pyval" where
  "swept e p = (if transitions e p
     then (case snd p of PDict fs \<Rightarrow> (fst p, PDict (mark_expired e (fst p) fs)) | _ \<Rightarrow> p)
     else p)"

definition record_effects :: "env \<Rightarrow> string \<times> pyval \<Rightarrow> effect list" where
  "record_effects e p =
     (if is_due (now_ts e) (snd p) = Inr True
      then (case py_int_str (fst p) of
              None \<Rightarrow> []
            | Some n \<Rightarrow> Ban n # (if ban_ok e n
                 then Unban n # (if unban_ok e n then [SendDM n (RejoinMsg (fst p))] else [])
                 else []))
      else [])"

section \<open>Reachable stores\<close>

text \<open>The worlds the process can be in: it starts with an empty store, and each step is
  one webhook delivery or one sweep, in any environment.\<close>

inductive reachable :: "config \<Rightarrow> world \<Rightarrow> bool" for cfg :: config where
  start: "reachable cfg \<lparr>DB = [], disk = [], trace = []\<rparr>"
| payment: "reachable cfg w \<Longrightarrow> reachable cfg (snd (instamojo_webhook cfg e form w))"
| sweep: "reachable cfg w \<Longrightarrow> reachable cfg (snd (expiry_job e w))"

text \<open>The data-model invariant on one record: \<^verbatim>\<open>expired_at\<close> is a field of it iff its
  status is \<^verbatim>\<open>expired\<close>.\<close>

definition record_ok :: "pyval \<Rightarrow> bool" where
  "record_ok rec = (case rec of
       PDict fs \<Rightarrow> (''expired_at'' \<in> fst ` set fs) = (map_of fs ''status'' = Some (PStr ''expired''))
     | _ \<Rightarrow> False)"

section \<open>Sample stores and environments\<close>

definition store_a :: world where
  "store_a = \<lparr>DB = [(''7'', PDict [(''expiry_ts'', PInt 99), (''status'', PStr ''active'')]),
                     (''8'', PDict [(''expiry_ts'', PInt 101), (''status'', PStr ''active'')])],
              disk = [], trace = []\<rparr>"

definition env_ok :: env where
  "env_ok = \<lparr>im_get_payment_request = (\<lambda>r. None), json_loads = (\<lambda>s. None),
             create_single_use_invite = Some ''t.me/+x'',
             now_ts = 100, iso_at = (\<lambda>k. ''T''), ban_ok = (\<lambda>n. True), unban_ok = (\<lambda>n. True),
             save_ok = True\<rparr>"

definition env_flaky :: env where
  "env_flaky = \<lparr>im_get_payment_request = (\<lambda>r. None), json_loads = (\<lambda>s. None),
             create_single_use_invite = Some ''t.me/+x'',
             now_ts = 100, iso_at = (\<lambda>k. ''T''), ban_ok = (\<lambda>n. n \<noteq> 7), unban_ok = (\<lambda>n. True),
             save_ok = True\<rparr>"

definition store_b :: world where
  "store_b = \<lparr>DB = [(''7'', PDict [(''expiry_ts'', PInt 50), (''status'', PStr ''active'')]),
                     (''8'', PDict [(''expiry_ts'', PInt 60), (''status'', PStr ''active'')])],
              disk = [], trace = []\<rparr>"


definition store_nots :: world where
  "store_nots = \<lparr>DB = [(''7'', PDict [(''status'', PStr ''active'')])], disk = [], trace = []\<rparr>"

definition store_bad :: world where
  "store_bad = \<lparr>DB = [(''7'', PDict [(''status'', PStr ''active''), (''expiry_ts'', PNone)]),
                       (''8'', PDict [(''expiry_ts'', PInt 60), (''status'', PStr ''active'')])],
                disk = [], trace = []\<rparr>"

definition pr_paid :: pyval where
  "pr_paid = PDict [(''status'', PStr ''Completed''),
                    (''metadata'', PDict [(''telegram_user_id'', PStr ''7'')])]"

definition env_paid :: env where
  "env_paid = \<lparr>im_get_payment_request = (\<lambda>r. Some pr_paid), json_loads = (\<lambda>s. None),
               create_single_use_invite = Some ''t.me/+x'', now_ts = 100, iso_at = (\<lambda>k. ''T''),
               ban_ok = (\<lambda>n. True), unban_ok = (\<lambda>n. True), save_ok = True\<rparr>"

definition form_a :: "string \<rightharpoonup> string" where
  "form_a = [''payment_request_id'' \<mapsto> ''r1'']"

definition store_empty :: world where
  "store_empty = \<lparr>DB = [], disk = [], trace = []\<rparr>"

definition cfg_a :: config where
  "cfg_a = \<lparr>SUBSCRIPTION_DAYS = 30, INVITE_LINK_TTL_SECONDS = 600\<rparr>"

definition env_later :: env where
  "env_later = env_paid\<lparr>now_ts := 200\<rparr>"

definition env_nosave :: env where
  "env_nosave = env_paid\<lparr>save_ok := False\<rparr>"

definition pr_super :: pyval where
  "pr_super = PDict [(''status'', PStr ''Completed''),
                     (''metadata'', PDict [(''telegram_user_id'', PStr [CHR 0xB2])])]"

definition env_super :: env where
  "env_super = env_paid\<lparr>im_get_payment_request := (\<lambda>r. Some pr_super)\<rparr>"

definition env_far :: env where
  "env_far = env_paid\<lparr>now_ts := 9999999\<rparr>"

section \<open>The sweep computes the closed form\<close>

lemma update_mid:
  "k \<notin> fst ` set pre \<Longrightarrow> AList.update k v (pre @ (k, r) # post) = pre @ (k, v) # post"
  by (induction pre) auto

lemma map_of_mid:
  "k \<notin> fst ` set pre \<Longrightarrow> map_of (pre @ (k, r) # post) k = Some r"
  by (induction pre) auto

lemma is_due_dict: "is_due now rec = Inr True \<Longrightarrow> \<exists>fs. rec = PDict fs"
  by (cases rec) (auto simp: is_due_def py_get_def)

lemma revoke_record_snd:
  assumes "map_of (DB w) uid = Some rec"
  shows "snd (revoke_record e uid rec w) =
      w\<lparr>DB := (if transitions e (uid, rec) then AList.update uid (snd (swept e (uid, rec))) (DB w) else DB w),
        trace := trace w @ record_effects e (uid, rec)\<rparr>"
proof (cases "is_due (now_ts e) rec = Inr True")
  case True
  then obtain fs where "rec = PDict fs" using is_due_dict by blast
  with True assms show ?thesis
    by (auto simp: revoke_record_def transitions_def revocable_def swept_def record_effects_def
        log_effect_def Let_def split: option.splits)
next
  case False
  then show ?thesis
    by (cases "is_due (now_ts e) rec")
       (auto simp: revoke_record_def transitions_def record_effects_def split: bool.splits)
qed

lemma revoke_record_fst:
  assumes "map_of (DB w) uid = Some rec"
  shows "fst (revoke_record e uid rec w) = Inr True \<longleftrightarrow> transitions e (uid, rec)"
proof (cases "is_due (now_ts e) rec = Inr True")
  case True
  then obtain fs where "rec = PDict fs" using is_due_dict by blast
  with True assms show ?thesis
    by (auto simp: revoke_record_def transitions_def revocable_def
        log_effect_def Let_def split: option.splits)
next
  case False
  then show ?thesis
    by (cases "is_due (now_ts e) rec")
       (auto simp: revoke_record_def transitions_def split: bool.splits)
qed

lemma sweep_loop_eq:
  assumes "distinct (map fst (pre @ items))" and "DB w = pre @ items"
  shows "sweep_loop e items (w, c) =
     (w\<lparr>DB := pre @ map (swept e) items,
        trace := trace w @ concat (map (record_effects e) items)\<rparr>,
      c \<or> (\<exists>x\<in>set items. transitions e x))"
  using assms
proof (induction items arbitrary: pre w c)
  case Nil
  then show ?case by simp
next
  case (Cons p items)
  obtain uid rec where p: "p = (uid, rec)" by (cases p)
  from Cons.prems p have notin: "uid \<notin> fst ` set pre" by auto
  have look: "map_of (DB w) uid = Some rec"
    unfolding Cons.prems(2) p by (rule map_of_mid [OF notin])
  define w' where "w' = snd (revoke_record e uid rec w)"
  define r where "r = fst (revoke_record e uid rec w)"
  have step: "revoke_record e uid rec w = (r, w')"
    by (simp add: w'_def r_def)
  have w': "w' = w\<lparr>DB := (if transitions e (uid, rec) then AList.update uid (snd (swept e (uid, rec))) (DB w) else DB w),
        trace := trace w @ record_effects e (uid, rec)\<rparr>"
    unfolding w'_def by (rule revoke_record_snd [OF look])
  have r: "r = Inr True \<longleftrightarrow> transitions e (uid, rec)"
    unfolding r_def by (rule revoke_record_fst [OF look])
  have fst_swept: "fst (swept e (uid, rec)) = uid"
    by (simp add: swept_def split: pyval.splits)
  have db': "DB w' = (pre @ [swept e (uid, rec)]) @ items"
  proof (cases "transitions e (uid, rec)")
    case True
    with w' Cons.prems p notin show ?thesis
      using fst_swept by (simp add: update_mid) (metis prod.collapse)
  next
    case False
    with w' Cons.prems p show ?thesis by (simp add: swept_def)
  qed
  have dist': "distinct (map fst ((pre @ [swept e (uid, rec)]) @ items))"
    using Cons.prems p fst_swept by simp
  have ih: "\<And>c'. sweep_loop e items (w', c') =
     (w'\<lparr>DB := (pre @ [swept e (uid, rec)]) @ map (swept e) items,
        trace := trace w' @ concat (map (record_effects e) items)\<rparr>,
      c' \<or> (\<exists>x\<in>set items. transitions e x))"
    using Cons.IH [OF dist' db'] .
  show ?case
  proof (cases r)
    case (Inl x)
    with r have "\<not> transitions e (uid, rec)" by auto
    with Inl step p ih [of c] w' show ?thesis by simp
  next
    case (Inr b)
    with r have "b = transitions e (uid, rec)" by auto
    with Inr step p ih [of "c \<or> b"] w' show ?thesis by auto
  qed
qed

lemma fst_swept: "fst (swept e p) = fst p"
  by (simp add: swept_def split: pyval.splits)

lemma expiry_job_eq:
  assumes "distinct (map fst (DB w))"
  shows "expiry_job e w =
     (if \<exists>x\<in>set (DB w). transitions e x
      then (if save_ok e then Inr () else Inl OSError,
            w\<lparr>DB := map (swept e) (DB w),
              disk := (if save_ok e then map (swept e) (DB w) else disk w),
              trace := trace w @ concat (map (record_effects e) (DB w))
                         @ [SaveDB (map (swept e) (DB w))]\<rparr>)
      else (Inr (),
            w\<lparr>DB := map (swept e) (DB w),
              trace := trace w @ concat (map (record_effects e) (DB w))\<rparr>))"
proof (cases "DB w = []")
  case True
  then show ?thesis by (simp add: expiry_job_def)
next
  case False
  from assms have "distinct (map fst ([] @ DB w))" by simp
  from sweep_loop_eq [OF this, of w e False]
  have "sweep_loop e (DB w) (w, False) =
     (w\<lparr>DB := map (swept e) (DB w),
        trace := trace w @ concat (map (record_effects e) (DB w))\<rparr>,
      \<exists>x\<in>set (DB w). transitions e x)" by simp
  with False show ?thesis
    by (simp add: expiry_job_def log_effect_def)
qed

lemma map_of_swept:
  "map_of (map (swept e) xs) u = map_option (\<lambda>r. snd (swept e (u, r))) (map_of xs u)"
  by (induction xs) (auto simp: fst_swept)

lemma sweep_lookup:
  assumes "distinct (map fst (DB w))" and "(uid, rec) \<in> set (DB w)"
  shows "map_of (DB (snd (expiry_job e w))) uid = Some (snd (swept e (uid, rec)))"
proof -
  have "DB (snd (expiry_job e w)) = map (swept e) (DB w)"
    by (simp add: expiry_job_eq [OF assms(1)])
  with assms show ?thesis by (simp add: map_of_swept)
qed

lemma sweep_trace:
  assumes "distinct (map fst (DB w))"
  shows "drop (length (trace w)) (trace (snd (expiry_job e w))) =
     concat (map (record_effects e) (DB w)) @
     (if \<exists>x\<in>set (DB w). transitions e x then [SaveDB (DB (snd (expiry_job e w)))] else [])"
  by (simp add: expiry_job_eq [OF assms])

section \<open>Properties of the sweep\<close>

lemma is_due_int:
  "map_of fs ''expiry_ts'' = Some (PInt t) \<Longrightarrow>
   is_due now (PDict fs) = Inr (map_of fs ''status'' = Some (PStr ''active'') \<and> t \<le> now)"
  by (auto simp: is_due_def py_get_def py_int_def split: option.splits)

lemma bans_effects:
  "[m. Ban m \<leftarrow> record_effects e p] =
     (case (if is_due (now_ts e) (snd p) = Inr True then py_int_str (fst p) else None) of
        None \<Rightarrow> [] | Some n \<Rightarrow> [n])"
  by (auto simp: record_effects_def split: option.splits)

lemma bans_sweep:
  "[m. Ban m \<leftarrow> concat (map (record_effects e) xs)] =
     List.map_filter (\<lambda>(u, r). if is_due (now_ts e) r = Inr True then py_int_str u else None) xs"
proof (induction xs)
  case Nil
  show ?case by (simp add: List.map_filter_simps)
next
  case (Cons p xs)
  obtain u r where p: "p = (u, r)" by (cases p)
  have "[m. Ban m \<leftarrow> concat (map (record_effects e) (p # xs))] =
        [m. Ban m \<leftarrow> record_effects e p] @ [m. Ban m \<leftarrow> concat (map (record_effects e) xs)]"
    by simp
  with Cons p show ?case
    by (simp add: bans_effects List.map_filter_simps split: option.splits del: concat.simps map_append)
qed

text \<open>
  Claim C2. A sweep at \<open>now_ts\<close> bans exactly the users of the items that line 215 finds
  due, in store order. An item with an integer \<^verbatim>\<open>expiry_ts\<close> is due iff it is active and
  \<^verbatim>\<open>expiry_ts <= now\<close>; it ends up marked expired iff it is due and both platform calls go
  through, and is otherwise left as it was. So an active item expiring at \<open>now - 1\<close> is
  revoked and marked, one expiring at \<open>now + 1\<close> and one that is not active are untouched.
\<close>

theorem sweep_threshold:
  assumes "distinct (map fst (DB w))"
    and "(uid, PDict fs) \<in> set (DB w)"
    and "map_of fs ''expiry_ts'' = Some (PInt t)"
    and "py_int_str uid = Some n"
  shows "is_due (now_ts e) (PDict fs) =
           Inr (map_of fs ''status'' = Some (PStr ''active'') \<and> t \<le> now_ts e)
       \<and> map_of (DB (snd (expiry_job e w))) uid =
           Some (PDict (if map_of fs ''status'' = Some (PStr ''active'') \<and> t \<le> now_ts e
                           \<and> ban_ok e n \<and> unban_ok e n
                        then mark_expired e uid fs else fs))
       \<and> [m. Ban m \<leftarrow> drop (length (trace w)) (trace (snd (expiry_job e w)))] =
           List.map_filter
             (\<lambda>(u, r). if is_due (now_ts e) r = Inr True then py_int_str u else None) (DB w)"
proof -
  have due: "is_due (now_ts e) (PDict fs) =
           Inr (map_of fs ''status'' = Some (PStr ''active'') \<and> t \<le> now_ts e)"
    by (rule is_due_int [OF assms(3)])
  have "map_of (DB (snd (expiry_job e w))) uid = Some (snd (swept e (uid, PDict fs)))"
    by (rule sweep_lookup [OF assms(1,2)])
  moreover have "snd (swept e (uid, PDict fs)) =
      PDict (if map_of fs ''status'' = Some (PStr ''active'') \<and> t \<le> now_ts e
                           \<and> ban_ok e n \<and> unban_ok e n
                        then mark_expired e uid fs else fs)"
    using due assms(4) by (simp add: swept_def transitions_def revocable_def)
  moreover have "[m. Ban m \<leftarrow> drop (length (trace w)) (trace (snd (expiry_job e w)))] =
           List.map_filter
             (\<lambda>(u, r). if is_due (now_ts e) r = Inr True then py_int_str u else None) (DB w)"
    unfolding sweep_trace [OF assms(1)] using bans_sweep [of e "DB w"] by simp
  ultimately show ?thesis using due by simp
qed

theorem sweep_threshold_witness:
  "distinct (map fst (DB store_a))
   \<and> (''7'', PDict [(''expiry_ts'', PInt 99), (''status'', PStr ''active'')]) \<in> set (DB store_a)
   \<and> py_int_str ''7'' = Some 7
   \<and> map_of (DB (snd (expiry_job env_ok store_a))) ''7'' =
       Some (PDict [(''expiry_ts'', PInt 99), (''status'', PStr ''expired''), (''expired_at'', PStr ''T'')])
   \<and> [m. Ban m \<leftarrow> drop (length (trace store_a)) (trace (snd (expiry_job env_ok store_a)))] = [7]"
proof -
  have h1: "distinct (map fst (DB store_a))" by (simp add: store_a_def)
  have h2: "(''7'', PDict [(''expiry_ts'', PInt 99), (''status'', PStr ''active'')]) \<in> set (DB store_a)"
    by (simp add: store_a_def)
  have h3: "map_of [(''expiry_ts'', PInt 99), (''status'', PStr ''active'')] ''expiry_ts'' = Some (PInt 99)"
    by simp
  have h4: "py_int_str ''7'' = Some 7"
    by (simp add: py_int_str_def strip_def is_space_def is_decimal_def digit_val_def)
  have h5: "py_int_str ''8'' = Some 8"
    by (simp add: py_int_str_def strip_def is_space_def is_decimal_def digit_val_def)
  show ?thesis
    using h1 h2 h4 sweep_threshold [OF h1 h2 h3 h4, of env_ok] h5
    by (simp add: env_ok_def mark_expired_def store_a_def List.map_filter_simps is_due_def py_get_def py_int_def)
qed

lemma mark_expired_status: "map_of (mark_expired e uid fs) ''status'' = Some (PStr ''expired'')"
  by (simp add: mark_expired_def AList.update_conv')

lemma is_due_active: "is_due now rec = Inr True \<Longrightarrow> py_get rec ''status'' PNone = Inr (PStr ''active'')"
  by (auto simp: is_due_def split: sum.splits if_splits)

text \<open>
  Claim C3. When the ban or the unban of a due item raises, the item stays in the store
  as it was, still active, and the loop goes on: a second due item whose calls go
  through is marked expired by the same sweep, whichever of the two comes first.
\<close>

theorem sweep_partial_failure:
  assumes "distinct (map fst (DB w))"
    and "(u1, r1) \<in> set (DB w)" and "is_due (now_ts e) r1 = Inr True"
    and "py_int_str u1 = Some n1" and "\<not> (ban_ok e n1 \<and> unban_ok e n1)"
    and "(u2, PDict f2) \<in> set (DB w)" and "is_due (now_ts e) (PDict f2) = Inr True"
    and "py_int_str u2 = Some n2" and "ban_ok e n2 \<and> unban_ok e n2"
  shows "map_of (DB (snd (expiry_job e w))) u1 = Some r1
       \<and> py_get r1 ''status'' PNone = Inr (PStr ''active'')
       \<and> map_of (DB (snd (expiry_job e w))) u2 = Some (PDict (mark_expired e u2 f2))
       \<and> map_of (mark_expired e u2 f2) ''status'' = Some (PStr ''expired'')"
proof -
  have "\<not> transitions e (u1, r1)"
    using assms(4,5) by (simp add: transitions_def revocable_def)
  then have a: "snd (swept e (u1, r1)) = r1" by (simp add: swept_def)
  have "transitions e (u2, PDict f2)"
    using assms(7,8,9) by (simp add: transitions_def revocable_def)
  then have b: "snd (swept e (u2, PDict f2)) = PDict (mark_expired e u2 f2)"
    by (simp add: swept_def)
  show ?thesis
    using sweep_lookup [OF assms(1,2), of e] sweep_lookup [OF assms(1,6), of e] a b
      is_due_active [OF assms(3)] mark_expired_status [of e u2 f2]
    by simp
qed

lemma int_of_7: "py_int_str ''7'' = Some 7"
  by (simp add: py_int_str_def strip_def is_space_def is_decimal_def digit_val_def)

lemma int_rejects_separator: "py_int_str [CHR 0x1C, CHR ''7''] = None"
  by (simp add: py_int_str_def strip_def is_space_def is_decimal_def)

lemma int_of_8: "py_int_str ''8'' = Some 8"
  by (simp add: py_int_str_def strip_def is_space_def is_decimal_def digit_val_def)

theorem sweep_partial_failure_witness:
  "distinct (map fst (DB store_b))
   \<and> is_due (now_ts env_flaky) (PDict [(''expiry_ts'', PInt 50), (''status'', PStr ''active'')]) = Inr True
   \<and> is_due (now_ts env_flaky) (PDict [(''expiry_ts'', PInt 60), (''status'', PStr ''active'')]) = Inr True
   \<and> \<not> ban_ok env_flaky 7 \<and> ban_ok env_flaky 8 \<and> unban_ok env_flaky 8
   \<and> map_of (DB (snd (expiry_job env_flaky store_b))) ''7'' =
       Some (PDict [(''expiry_ts'', PInt 50), (''status'', PStr ''active'')])
   \<and> map_of (DB (snd (expiry_job env_flaky store_b))) ''8'' =
       Some (PDict [(''expiry_ts'', PInt 60), (''status'', PStr ''expired''), (''expired_at'', PStr ''T'')])"
proof -
  have h1: "distinct (map fst (DB store_b))" by (simp add: store_b_def)
  have h2: "(''7'', PDict [(''expiry_ts'', PInt 50), (''status'', PStr ''active'')]) \<in> set (DB store_b)"
    by (simp add: store_b_def)
  have h3: "is_due (now_ts env_flaky) (PDict [(''expiry_ts'', PInt 50), (''status'', PStr ''active'')]) = Inr True"
    by (simp add: is_due_def py_get_def py_int_def env_flaky_def)
  have h5: "\<not> (ban_ok env_flaky 7 \<and> unban_ok env_flaky 7)" by (simp add: env_flaky_def)
  have h6: "(''8'', PDict [(''expiry_ts'', PInt 60), (''status'', PStr ''active'')]) \<in> set (DB store_b)"
    by (simp add: store_b_def)
  have h7: "is_due (now_ts env_flaky) (PDict [(''expiry_ts'', PInt 60), (''status'', PStr ''active'')]) = Inr True"
    by (simp add: is_due_def py_get_def py_int_def env_flaky_def)
  have h9: "ban_ok env_flaky 8 \<and> unban_ok env_flaky 8" by (simp add: env_flaky_def)
  show ?thesis
    using h1 h3 h7 h5 h9 sweep_partial_failure [OF h1 h2 h3 int_of_7 h5 h6 h7 int_of_8 h9]
    by (simp add: mark_expired_def env_flaky_def)
qed







text \<open>
  Claim C5 as stated fails: an active item without \<^verbatim>\<open>expiry_ts\<close>, swept at time 100,
  is banned, unbanned, marked expired and saved.
\<close>

theorem sweep_missing_expiry_counterexample:
  "snd (expiry_job env_ok store_nots) =
     \<lparr>DB = [(''7'', PDict [(''status'', PStr ''expired''), (''expired_at'', PStr ''T'')])],
      disk = [(''7'', PDict [(''status'', PStr ''expired''), (''expired_at'', PStr ''T'')])],
      trace = [Ban 7, Unban 7, SendDM 7 (RejoinMsg ''7''),
               SaveDB [(''7'', PDict [(''status'', PStr ''expired''), (''expired_at'', PStr ''T'')])]]\<rparr>"
  by (simp add: expiry_job_def store_nots_def env_ok_def revoke_record_def is_due_def py_get_def
      py_int_def int_of_7 log_effect_def mark_expired_def)

lemma map_of_filter_other:
  "u \<noteq> k \<Longrightarrow> map_of (filter (\<lambda>p. fst p \<noteq> k) xs) u = map_of xs u"
  by (induction xs) auto

lemma distinct_filter_keys:
  "distinct (map fst xs) \<Longrightarrow> distinct (map fst (filter P xs))"
  by (induction xs) auto

lemma revoke_record_skip:
  assumes "is_due (now_ts e) rec \<noteq> Inr True \<or> py_int_str uid = None"
  shows "snd (revoke_record e uid rec w1) = w1 \<and> fst (revoke_record e uid rec w1) \<noteq> Inr True"
proof (cases "is_due (now_ts e) rec")
  case (Inl x)
  then show ?thesis by (simp add: revoke_record_def)
next
  case (Inr b)
  with assms show ?thesis by (cases b) (auto simp: revoke_record_def)
qed

text \<open>
  Claim C5, as amended. An active item without \<^verbatim>\<open>expiry_ts\<close> is not skipped: line 215
  reads the missing field as 0, so the item is due at any \<open>now_ts \<ge> 0\<close> and is marked
  expired when its platform calls go through. An item on which line 215 raises, or whose
  key is not a number, is skipped: the loop body leaves every world as it is (no call, no
  change) and the item is in the store afterwards as before. Either way the other items
  end up as in a sweep of the store without that item.
\<close>

theorem sweep_malformed_record:
  assumes "distinct (map fst (DB w))" and "(uid, rec) \<in> set (DB w)"
  shows "(\<forall>fs. rec = PDict fs \<and> map_of fs ''status'' = Some (PStr ''active'')
             \<and> map_of fs ''expiry_ts'' = None \<longrightarrow>
           is_due (now_ts e) rec = Inr (0 \<le> now_ts e)
           \<and> (\<forall>n. 0 \<le> now_ts e \<and> py_int_str uid = Some n \<and> ban_ok e n \<and> unban_ok e n \<longrightarrow>
                 map_of (DB (snd (expiry_job e w))) uid = Some (PDict (mark_expired e uid fs))))
       \<and> ((\<exists>x. is_due (now_ts e) rec = Inl x) \<or> py_int_str uid = None \<longrightarrow>
            map_of (DB (snd (expiry_job e w))) uid = Some rec
            \<and> (\<forall>w1. snd (revoke_record e uid rec w1) = w1))
       \<and> (\<forall>u. u \<noteq> uid \<longrightarrow>
            map_of (DB (snd (expiry_job e w))) u =
            map_of (DB (snd (expiry_job e (w\<lparr>DB := filter (\<lambda>p. fst p \<noteq> uid) (DB w)\<rparr>)))) u)"
proof -
  have look: "map_of (DB (snd (expiry_job e w))) uid = Some (snd (swept e (uid, rec)))"
    by (rule sweep_lookup [OF assms])
  have A: "is_due (now_ts e) rec = Inr (0 \<le> now_ts e)
           \<and> (\<forall>n. 0 \<le> now_ts e \<and> py_int_str uid = Some n \<and> ban_ok e n \<and> unban_ok e n \<longrightarrow>
                 map_of (DB (snd (expiry_job e w))) uid = Some (PDict (mark_expired e uid fs)))"
    if "rec = PDict fs \<and> map_of fs ''status'' = Some (PStr ''active'') \<and> map_of fs ''expiry_ts'' = None"
    for fs
  proof -
    from that have due: "is_due (now_ts e) rec = Inr (0 \<le> now_ts e)"
      by (simp add: is_due_def py_get_def py_int_def)
    with that look show ?thesis
      by (simp add: swept_def transitions_def revocable_def)
  qed
  have B: "map_of (DB (snd (expiry_job e w))) uid = Some rec
            \<and> (\<forall>w1. snd (revoke_record e uid rec w1) = w1)"
    if "(\<exists>x. is_due (now_ts e) rec = Inl x) \<or> py_int_str uid = None"
  proof -
    from that have skip: "is_due (now_ts e) rec \<noteq> Inr True \<or> py_int_str uid = None" by auto
    then have "\<not> transitions e (uid, rec)"
      by (auto simp: transitions_def revocable_def)
    with look have "map_of (DB (snd (expiry_job e w))) uid = Some rec"
      by (simp add: swept_def)
    with revoke_record_skip [OF skip] show ?thesis by blast
  qed
  have C: "map_of (DB (snd (expiry_job e w))) u =
            map_of (DB (snd (expiry_job e (w\<lparr>DB := filter (\<lambda>p. fst p \<noteq> uid) (DB w)\<rparr>)))) u"
    if "u \<noteq> uid" for u
  proof -
    let ?w' = "w\<lparr>DB := filter (\<lambda>p. fst p \<noteq> uid) (DB w)\<rparr>"
    have d': "distinct (map fst (DB ?w'))"
      using assms(1) by (simp add: distinct_filter_keys)
    have "DB (snd (expiry_job e w)) = map (swept e) (DB w)"
      by (simp add: expiry_job_eq [OF assms(1)])
    moreover have "DB (snd (expiry_job e ?w')) = map (swept e) (DB ?w')"
      by (simp add: expiry_job_eq [OF d'])
    ultimately show ?thesis using that
      by (simp add: map_of_swept map_of_filter_other)
  qed
  from A B C show ?thesis by blast
qed

theorem sweep_malformed_record_witness:
  "distinct (map fst (DB store_bad))
   \<and> (''7'', PDict [(''status'', PStr ''active''), (''expiry_ts'', PNone)]) \<in> set (DB store_bad)
   \<and> is_due (now_ts env_ok) (PDict [(''status'', PStr ''active''), (''expiry_ts'', PNone)]) = Inl TypeError
   \<and> map_of (DB (snd (expiry_job env_ok store_bad))) ''7'' =
       Some (PDict [(''status'', PStr ''active''), (''expiry_ts'', PNone)])
   \<and> map_of (DB (snd (expiry_job env_ok store_bad))) ''8'' =
       map_of (DB (snd (expiry_job env_ok
          (store_bad\<lparr>DB := filter (\<lambda>p. fst p \<noteq> ''7'') (DB store_bad)\<rparr>)))) ''8''
   \<and> distinct (map fst (DB store_nots))
   \<and> (''7'', PDict [(''status'', PStr ''active'')]) \<in> set (DB store_nots)
   \<and> map_of [(''status'', PStr ''active'')] ''expiry_ts'' = None
   \<and> 0 \<le> now_ts env_ok \<and> py_int_str ''7'' = Some 7 \<and> ban_ok env_ok 7 \<and> unban_ok env_ok 7
   \<and> map_of (DB (snd (expiry_job env_ok store_nots))) ''7'' =
       Some (PDict (mark_expired env_ok ''7'' [(''status'', PStr ''active'')]))"
proof -
  have h1: "distinct (map fst (DB store_bad))" by (simp add: store_bad_def)
  have h2: "(''7'', PDict [(''status'', PStr ''active''), (''expiry_ts'', PNone)]) \<in> set (DB store_bad)"
    by (simp add: store_bad_def)
  have h3: "is_due (now_ts env_ok) (PDict [(''status'', PStr ''active''), (''expiry_ts'', PNone)]) = Inl TypeError"
    by (simp add: is_due_def py_get_def py_int_def)
  from sweep_malformed_record [OF h1 h2, of env_ok] h3
  have skipped: "map_of (DB (snd (expiry_job env_ok store_bad))) ''7'' =
          Some (PDict [(''status'', PStr ''active''), (''expiry_ts'', PNone)])"
    and others: "map_of (DB (snd (expiry_job env_ok store_bad))) ''8'' =
       map_of (DB (snd (expiry_job env_ok
          (store_bad\<lparr>DB := filter (\<lambda>p. fst p \<noteq> ''7'') (DB store_bad)\<rparr>)))) ''8''"
    by auto
  have n1: "distinct (map fst (DB store_nots))" by (simp add: store_nots_def)
  have n2: "(''7'', PDict [(''status'', PStr ''active'')]) \<in> set (DB store_nots)"
    by (simp add: store_nots_def)
  have n3: "map_of [(''status'', PStr ''active'')] ''expiry_ts'' = None" by simp
  have n4: "0 \<le> now_ts env_ok" "ban_ok env_ok 7" "unban_ok env_ok 7"
    by (simp_all add: env_ok_def)
  from sweep_malformed_record [OF n1 n2, of env_ok] n3 n4 int_of_7
  have treated: "map_of (DB (snd (expiry_job env_ok store_nots))) ''7'' =
       Some (PDict (mark_expired env_ok ''7'' [(''status'', PStr ''active'')]))"
    by simp
  from h1 h2 h3 skipped others n1 n2 n3 n4 int_of_7 treated show ?thesis by blast
qed

section \<open>Properties of the webhook\<close>

lemma verify_payment_verified:
  "fst (verify_payment e form w) = Verified n \<Longrightarrow>
   snd (verify_payment e form w) = log_effect (Lookup (form_req_id form)) w"
  by (auto simp: verify_payment_def Let_def split: option.splits if_splits)

lemma verify_payment_store:
  "DB (snd (verify_payment e form w)) = DB w \<and> disk (snd (verify_payment e form w)) = disk w"
  by (simp add: verify_payment_def Let_def log_effect_def split: option.splits)

lemma webhook_verified:
  assumes "fst (verify_payment e form w) = Verified n"
  shows "instamojo_webhook cfg e form w = activate cfg e n (log_effect (Lookup (form_req_id form)) w)"
proof -
  from assms verify_payment_verified [OF assms]
  have "verify_payment e form w = (Verified n, log_effect (Lookup (form_req_id form)) w)"
    by (metis prod.collapse)
  then show ?thesis by (simp add: instamojo_webhook_def)
qed

text \<open>
  Claim C1. When the payment verifies and \<^verbatim>\<open>create_single_use_invite\<close> raises, the
  handler answers and the only calls made are the gateway lookup and the failed invite:
  \<open>DB\<close> and the file are as before, no record is written and \<^verbatim>\<open>save_db\<close> is not called.
\<close>

theorem no_credential_no_record:
  assumes "fst (verify_payment e form w) = Verified tg_id" and "create_single_use_invite e = None"
  shows "instamojo_webhook cfg e form w =
     (Inr (''ok'', 200),
      w\<lparr>trace := trace w @ [Lookup (form_req_id form),
                             CreateInvite (max 60 (INVITE_LINK_TTL_SECONDS cfg))]\<rparr>)"
  using assms(2) by (simp add: webhook_verified [OF assms(1)] activate_def log_effect_def Let_def)

lemma str_of_7: "py_str_int 7 = ''7''"
  by code_simp

lemma identity_paid: "identity_of e pr_paid = Verified 7"
  by (simp add: identity_of_def pr_paid_def truthy_def py_get_def accepted_status_def
      metadata_of_def py_str_def str_isdigit_def isdigit_char_def is_decimal_def int_of_7)

lemma verify_paid:
  "im_get_payment_request e = (\<lambda>r. Some pr_paid) \<Longrightarrow> fst (verify_payment e form_a w) = Verified 7"
  by (simp add: verify_payment_def form_req_id_def form_a_def identity_paid)

theorem no_credential_no_record_witness:
  "fst (verify_payment (env_paid\<lparr>create_single_use_invite := None\<rparr>) form_a store_empty) = Verified 7
   \<and> create_single_use_invite (env_paid\<lparr>create_single_use_invite := None\<rparr>) = None
   \<and> instamojo_webhook cfg_a (env_paid\<lparr>create_single_use_invite := None\<rparr>) form_a store_empty =
       (Inr (''ok'', 200), \<lparr>DB = [], disk = [], trace = [Lookup ''r1'', CreateInvite 600]\<rparr>)"
proof -
  have h1: "fst (verify_payment (env_paid\<lparr>create_single_use_invite := None\<rparr>) form_a store_empty) = Verified 7"
    by (rule verify_paid) (simp add: env_paid_def)
  have h2: "create_single_use_invite (env_paid\<lparr>create_single_use_invite := None\<rparr>) = None" by simp
  show ?thesis
    using h1 h2 no_credential_no_record [OF h1 h2, of cfg_a]
    by (simp add: store_empty_def cfg_a_def form_req_id_def form_a_def)
qed

lemma filter_key_distinct:
  "distinct (map fst xs) \<Longrightarrow> map_of xs k = Some v \<Longrightarrow> filter (\<lambda>p. fst p = k) xs = [(k, v)]"
proof (induction xs)
  case Nil
  then show ?case by simp
next
  case (Cons p xs)
  obtain a b where p: "p = (a, b)" by (cases p)
  show ?case
  proof (cases "a = k")
    case True
    with Cons.prems p have "\<forall>q\<in>set xs. fst q \<noteq> k" by auto
    then have "filter (\<lambda>p. fst p = k) xs = []" by (simp add: filter_empty_conv)
    with True Cons.prems p show ?thesis by simp
  next
    case False
    with Cons p show ?thesis by simp
  qed
qed

lemma activate_ok:
  assumes "create_single_use_invite e \<noteq> None"
  shows "DB (snd (activate cfg e n w)) = AList.update (py_str_int n) (new_record cfg e (py_str_int n)) (DB w)"
    and "save_ok e \<Longrightarrow> disk (snd (activate cfg e n w)) = DB (snd (activate cfg e n w))"
    and "fst (activate cfg e n w) = Inr (''ok'', 200)"
  using assms by (auto simp: activate_def log_effect_def Let_def split: option.splits)

text \<open>
  Claim C4. Two deliveries in a row that verify for the same Telegram id and get their
  invite leave one item under the key of that id, after the first and after the second:
  the second replaces the record in place (the keys of the store are the same list), and
  its \<^verbatim>\<open>expiry_ts\<close> is the clock of the second delivery plus \<^verbatim>\<open>SUBSCRIPTION_DAYS\<close> days.
\<close>

theorem renewal_overwrites:
  assumes "distinct (map fst (DB w))"
    and "fst (verify_payment e1 form1 w) = Verified n" and "create_single_use_invite e1 \<noteq> None"
    and "w1 = snd (instamojo_webhook cfg e1 form1 w)"
    and "fst (verify_payment e2 form2 w1) = Verified n" and "create_single_use_invite e2 \<noteq> None"
    and "w2 = snd (instamojo_webhook cfg e2 form2 w1)"
  shows "filter (\<lambda>p. fst p = py_str_int n) (DB w1) = [(py_str_int n, new_record cfg e1 (py_str_int n))]
       \<and> filter (\<lambda>p. fst p = py_str_int n) (DB w2) = [(py_str_int n, new_record cfg e2 (py_str_int n))]
       \<and> py_get (new_record cfg e2 (py_str_int n)) ''expiry_ts'' PNone =
           Inr (PInt (now_ts e2 + 86400 * SUBSCRIPTION_DAYS cfg))
       \<and> map fst (DB w2) = map fst (DB w1)
       \<and> (save_ok e2 \<longrightarrow> disk w2 = DB w2)"
proof -
  let ?k = "py_str_int n"
  have db1: "DB w1 = AList.update ?k (new_record cfg e1 ?k) (DB w)"
    unfolding assms(4) webhook_verified [OF assms(2)]
    by (simp add: activate_ok(1) [OF assms(3)] log_effect_def)
  have db2: "DB w2 = AList.update ?k (new_record cfg e2 ?k) (DB w1)"
    unfolding assms(7) webhook_verified [OF assms(5)]
    by (simp add: activate_ok(1) [OF assms(6)] log_effect_def)
  have d1: "distinct (map fst (DB w1))"
    unfolding db1 by (rule AList.distinct_update [OF assms(1)])
  have d2: "distinct (map fst (DB w2))"
    unfolding db2 by (rule AList.distinct_update [OF d1])
  have f1: "filter (\<lambda>p. fst p = ?k) (DB w1) = [(?k, new_record cfg e1 ?k)]"
    by (rule filter_key_distinct [OF d1]) (simp add: db1 AList.update_conv')
  have f2: "filter (\<lambda>p. fst p = ?k) (DB w2) = [(?k, new_record cfg e2 ?k)]"
    by (rule filter_key_distinct [OF d2]) (simp add: db2 AList.update_conv')
  have "?k \<in> set (map fst (DB w1))"
    unfolding db1 by (simp add: AList.update_keys)
  then have keys: "map fst (DB w2) = map fst (DB w1)"
    unfolding db2 by (simp add: AList.update_keys)
  have ex: "py_get (new_record cfg e2 ?k) ''expiry_ts'' PNone =
           Inr (PInt (now_ts e2 + 86400 * SUBSCRIPTION_DAYS cfg))"
    by (simp add: new_record_def py_get_def)
  have dk: "save_ok e2 \<Longrightarrow> disk w2 = DB w2"
    unfolding assms(7) webhook_verified [OF assms(5)]
    by (rule activate_ok(2) [OF assms(6)])
  from f1 f2 ex keys dk show ?thesis by blast
qed

theorem renewal_overwrites_witness:
  "distinct (map fst (DB store_empty))
   \<and> fst (verify_payment env_paid form_a store_empty) = Verified 7
   \<and> create_single_use_invite env_paid \<noteq> None
   \<and> fst (verify_payment env_later form_a (snd (instamojo_webhook cfg_a env_paid form_a store_empty))) = Verified 7
   \<and> create_single_use_invite env_later \<noteq> None
   \<and> filter (\<lambda>p. fst p = ''7'')
        (DB (snd (instamojo_webhook cfg_a env_later form_a
               (snd (instamojo_webhook cfg_a env_paid form_a store_empty))))) =
      [(''7'', PDict [(''expiry_ts'', PInt 2592200), (''last_payment'', PStr ''T''),
                      (''status'', PStr ''active'')])]"
proof -
  have h1: "distinct (map fst (DB store_empty))" by (simp add: store_empty_def)
  have h2: "fst (verify_payment env_paid form_a store_empty) = Verified 7"
    by (rule verify_paid) (simp add: env_paid_def)
  have h3: "create_single_use_invite env_paid \<noteq> None" by (simp add: env_paid_def)
  have h5: "fst (verify_payment env_later form_a (snd (instamojo_webhook cfg_a env_paid form_a store_empty))) = Verified 7"
    by (rule verify_paid) (simp add: env_paid_def env_later_def)
  have h6: "create_single_use_invite env_later \<noteq> None" by (simp add: env_paid_def env_later_def)
  show ?thesis
    using h1 h2 h3 h5 h6 renewal_overwrites [OF h1 h2 h3 refl h5 h6 refl]
    by (simp add: str_of_7 new_record_def cfg_a_def env_later_def env_paid_def)
qed

text \<open>
  Claim C10 as stated fails where it says that the subscriber is left with no record: when
  the invite is issued and \<^verbatim>\<open>save_db\<close> raises, the handler answers \<^verbatim>\<open>"ok", 200\<close> and the
  record of id 7, written at line 156, stays in \<open>DB\<close>.
\<close>

theorem webhook_save_failure_counterexample:
  "fst (verify_payment env_nosave form_a store_empty) = Verified 7
   \<and> \<not> save_ok env_nosave
   \<and> map_of (DB store_empty) ''7'' = None
   \<and> instamojo_webhook cfg_a env_nosave form_a store_empty =
       (Inr (''ok'', 200),
        \<lparr>DB = [(''7'', PDict [(''expiry_ts'', PInt 2592100), (''last_payment'', PStr ''T''),
                              (''status'', PStr ''active'')])],
         disk = [],
         trace = [Lookup ''r1'', CreateInvite 600,
                  SaveDB [(''7'', PDict [(''expiry_ts'', PInt 2592100), (''last_payment'', PStr ''T''),
                                         (''status'', PStr ''active'')])]]\<rparr>)"
proof -
  have h1: "fst (verify_payment env_nosave form_a store_empty) = Verified 7"
    by (rule verify_paid) (simp add: env_paid_def env_nosave_def)
  have h2: "\<not> save_ok env_nosave" by (simp add: env_paid_def env_nosave_def)
  have h3: "map_of (DB store_empty) ''7'' = None" by (simp add: store_empty_def)
  have "activate cfg_a env_nosave 7 (log_effect (Lookup (form_req_id form_a)) store_empty) =
       (Inr (''ok'', 200),
        \<lparr>DB = [(''7'', PDict [(''expiry_ts'', PInt 2592100), (''last_payment'', PStr ''T''),
                              (''status'', PStr ''active'')])],
         disk = [],
         trace = [Lookup ''r1'', CreateInvite 600,
                  SaveDB [(''7'', PDict [(''expiry_ts'', PInt 2592100), (''last_payment'', PStr ''T''),
                                         (''status'', PStr ''active'')])]]\<rparr>)"
    by (simp add: activate_def log_effect_def Let_def str_of_7 new_record_def
        env_nosave_def env_paid_def cfg_a_def store_empty_def form_req_id_def form_a_def)
  then have h4: "instamojo_webhook cfg_a env_nosave form_a store_empty =
       (Inr (''ok'', 200),
        \<lparr>DB = [(''7'', PDict [(''expiry_ts'', PInt 2592100), (''last_payment'', PStr ''T''),
                              (''status'', PStr ''active'')])],
         disk = [],
         trace = [Lookup ''r1'', CreateInvite 600,
                  SaveDB [(''7'', PDict [(''expiry_ts'', PInt 2592100), (''last_payment'', PStr ''T''),
                                         (''status'', PStr ''active'')])]]\<rparr>)"
    by (simp only: webhook_verified [OF h1])
  from h1 h2 h3 h4 show ?thesis by blast
qed

text \<open>
  Claim C10, as amended. A delivery whose payment verifies is answered \<^verbatim>\<open>"ok", 200\<close>
  whatever the issuer and \<^verbatim>\<open>save_db\<close> do. When either raises, the file is unchanged and no
  message to the subscriber is started. When the issuer raises \<open>DB\<close> is unchanged; when it
  does not, \<open>DB\<close> holds the new active record, also when the save raises.
\<close>

theorem webhook_swallows_activation_failure:
  assumes "fst (verify_payment e form w) = Verified n"
  shows "fst (instamojo_webhook cfg e form w) = Inr (''ok'', 200)
       \<and> (create_single_use_invite e = None \<or> \<not> save_ok e \<longrightarrow>
            disk (snd (instamojo_webhook cfg e form w)) = disk w
            \<and> (\<forall>i m. SpawnDM i m \<notin> set (drop (length (trace w))
                                          (trace (snd (instamojo_webhook cfg e form w))))))
       \<and> (create_single_use_invite e = None \<longrightarrow> DB (snd (instamojo_webhook cfg e form w)) = DB w)
       \<and> (create_single_use_invite e \<noteq> None \<longrightarrow>
            map_of (DB (snd (instamojo_webhook cfg e form w))) (py_str_int n) =
              Some (new_record cfg e (py_str_int n)))"
  unfolding webhook_verified [OF assms]
  by (auto simp: activate_def log_effect_def Let_def AList.update_conv' split: option.splits)

theorem webhook_swallows_activation_failure_witness:
  "fst (verify_payment env_nosave form_a store_empty) = Verified 7
   \<and> \<not> save_ok env_nosave \<and> create_single_use_invite env_nosave \<noteq> None
   \<and> fst (instamojo_webhook cfg_a env_nosave form_a store_empty) = Inr (''ok'', 200)
   \<and> disk (snd (instamojo_webhook cfg_a env_nosave form_a store_empty)) = disk store_empty
   \<and> map_of (DB (snd (instamojo_webhook cfg_a env_nosave form_a store_empty))) (py_str_int 7) =
        Some (new_record cfg_a env_nosave (py_str_int 7))"
proof -
  have h1: "fst (verify_payment env_nosave form_a store_empty) = Verified 7"
    by (rule verify_paid) (simp add: env_paid_def env_nosave_def)
  have h2: "\<not> save_ok env_nosave" "create_single_use_invite env_nosave \<noteq> None"
    by (simp_all add: env_paid_def env_nosave_def)
  show ?thesis
    using h1 h2 webhook_swallows_activation_failure [OF h1, of cfg_a] by blast
qed

lemma isdigit_super: "str_isdigit [CHR 0xB2]"
  by (simp add: str_isdigit_def isdigit_char_def)

lemma int_super: "py_int_str [CHR 0xB2] = None"
  by (simp add: py_int_str_def strip_def is_space_def is_decimal_def)

text \<open>
  Claim C8 on the failing input: the gateway reports a completed payment whose
  \<^verbatim>\<open>telegram_user_id\<close> is the one-character string U+00B2. \<^verbatim>\<open>isdigit\<close> accepts it,
  \<^verbatim>\<open>int\<close> at line 151 raises \<^verbatim>\<open>ValueError\<close> outside every \<^verbatim>\<open>try\<close>, and the delivery is not
  acknowledged. The store is not touched.
\<close>

theorem webhook_superscript_identity:
  "instamojo_webhook cfg_a env_super form_a store_empty =
     (Inl ValueError, \<lparr>DB = [], disk = [], trace = [Lookup ''r1'']\<rparr>)"
  by (simp add: instamojo_webhook_def verify_payment_def form_req_id_def form_a_def env_super_def
      env_paid_def pr_super_def identity_of_def truthy_def py_get_def accepted_status_def
      metadata_of_def py_str_def isdigit_super int_super log_effect_def store_empty_def)

text \<open>
  What does hold of the verification (claim C8): a delivery that is not verified leaves
  \<open>DB\<close> and the file alone; every \<^verbatim>\<open>return\<close> before the activation answers with status 200;
  and the payment is verified for id \<open>n\<close> exactly when the request is a non-empty dict
  whose status is one of \<^verbatim>\<open>Completed\<close>, \<^verbatim>\<open>Credit\<close>, \<^verbatim>\<open>Success\<close> and whose
  \<^verbatim>\<open>telegram_user_id\<close> passes \<^verbatim>\<open>isdigit\<close> and converts to \<open>n\<close>. A metadata value that is
  not a dict is the second way for the handler to raise.
\<close>

lemma metadata_not_dict:
  "identity_of e (PDict [(''status'', PStr ''Completed''), (''metadata'', PList [PInt 1])]) =
     Uncaught AttributeError"
  by (simp add: identity_of_def truthy_def py_get_def accepted_status_def metadata_of_def)

lemma unverified_no_mutation:
  assumes "\<forall>n. fst (verify_payment e form w) \<noteq> Verified n"
  shows "DB (snd (instamojo_webhook cfg e form w)) = DB w
       \<and> disk (snd (instamojo_webhook cfg e form w)) = disk w"
proof (cases "verify_payment e form w")
  case (Pair v w1)
  with verify_payment_store [of e form w] have "DB w1 = DB w \<and> disk w1 = disk w" by simp
  with Pair assms show ?thesis
    by (cases v) (auto simp: instamojo_webhook_def)
qed

lemma reply_is_200:
  "fst (verify_payment e form w) = Reply body code \<Longrightarrow>
   code = 200 \<and> fst (instamojo_webhook cfg e form w) = Inr (body, 200)"
  by (cases "verify_payment e form w")
     (auto simp: instamojo_webhook_def verify_payment_def identity_of_def Let_def
       split: option.splits sum.splits if_splits)

lemma identity_verified_iff:
  "identity_of e pr = Verified n \<longleftrightarrow>
     (\<exists>status meta v. truthy pr \<and> py_get pr ''status'' (PStr []) = Inr status
        \<and> status \<in> set accepted_status
        \<and> metadata_of e pr = Inr meta
        \<and> py_get meta ''telegram_user_id'' (PStr []) = Inr v
        \<and> str_isdigit (py_str v) \<and> py_int_str (py_str v) = Some n)"
  by (auto simp: identity_of_def Let_def py_get_def accepted_status_def
      split: sum.splits option.splits if_splits)

section \<open>The invariant of the store\<close>

lemma set_update_cases:
  "p \<in> set (AList.update k v al) \<Longrightarrow> p = (k, v) \<or> p \<in> set al"
  by (induction al) (auto split: if_splits)

lemma update_inv:
  assumes "\<forall>p\<in>set al. P (snd p)" and "P v"
  shows "\<forall>p\<in>set (AList.update k v al). P (snd p)"
proof
  fix p assume "p \<in> set (AList.update k v al)"
  then have "p = (k, v) \<or> p \<in> set al" by (rule set_update_cases)
  with assms show "P (snd p)" by auto
qed

lemma new_record_ok: "record_ok (new_record cfg e key)"
  by (simp add: record_ok_def new_record_def)

lemma mark_expired_ok: "record_ok (PDict (mark_expired e uid fs))"
  by (simp add: record_ok_def mark_expired_status) (simp add: mark_expired_def AList.dom_update)

lemma activate_inv:
  assumes "\<forall>p\<in>set (DB w). record_ok (snd p)"
  shows "\<forall>p\<in>set (DB (snd (activate cfg e n w))). record_ok (snd p)"
proof (cases "create_single_use_invite e")
  case None
  with assms show ?thesis by (simp add: activate_def log_effect_def)
next
  case (Some l)
  then have "DB (snd (activate cfg e n w)) =
      AList.update (py_str_int n) (new_record cfg e (py_str_int n)) (DB w)"
    by (simp add: activate_def log_effect_def Let_def)
  with update_inv [OF assms new_record_ok] show ?thesis by simp
qed

lemma webhook_inv:
  assumes "\<forall>p\<in>set (DB w). record_ok (snd p)"
  shows "\<forall>p\<in>set (DB (snd (instamojo_webhook cfg e form w))). record_ok (snd p)"
proof (cases "\<exists>n. fst (verify_payment e form w) = Verified n")
  case True
  then obtain n where n: "fst (verify_payment e form w) = Verified n" by blast
  have "\<forall>p\<in>set (DB (log_effect (Lookup (form_req_id form)) w)). record_ok (snd p)"
    using assms by (simp add: log_effect_def)
  from activate_inv [OF this] show ?thesis
    by (simp add: webhook_verified [OF n])
next
  case False
  then have "DB (snd (instamojo_webhook cfg e form w)) = DB w"
    using unverified_no_mutation [of e form w cfg] by simp
  with assms show ?thesis by simp
qed

lemma revoke_record_inv:
  assumes "\<forall>p\<in>set (DB w). record_ok (snd p)"
  shows "\<forall>p\<in>set (DB (snd (revoke_record e uid rec w))). record_ok (snd p)"
proof -
  have "DB (snd (revoke_record e uid rec w)) = DB w
      \<or> (\<exists>fs. DB (snd (revoke_record e uid rec w)) =
               AList.update uid (PDict (mark_expired e uid fs)) (DB w))"
    by (auto simp: revoke_record_def log_effect_def Let_def
        split: sum.splits bool.splits option.splits pyval.splits)
  then show ?thesis
  proof
    assume "DB (snd (revoke_record e uid rec w)) = DB w"
    with assms show ?thesis by simp
  next
    assume "\<exists>fs. DB (snd (revoke_record e uid rec w)) =
               AList.update uid (PDict (mark_expired e uid fs)) (DB w)"
    then obtain fs where "DB (snd (revoke_record e uid rec w)) =
               AList.update uid (PDict (mark_expired e uid fs)) (DB w)" by blast
    with update_inv [OF assms mark_expired_ok] show ?thesis by simp
  qed
qed

lemma sweep_loop_inv:
  assumes "\<forall>p\<in>set (DB w). record_ok (snd p)"
  shows "\<forall>p\<in>set (DB (fst (sweep_loop e items (w, c)))). record_ok (snd p)"
  using assms
proof (induction items arbitrary: w c)
  case Nil
  then show ?case by simp
next
  case (Cons p items)
  obtain uid rec where p: "p = (uid, rec)" by (cases p)
  obtain r w' where step: "revoke_record e uid rec w = (r, w')" by (cases "revoke_record e uid rec w")
  with revoke_record_inv [OF Cons.prems, of e uid rec]
  have inv': "\<forall>p\<in>set (DB w'). record_ok (snd p)" by simp
  show ?case
    using Cons.IH [OF inv'] p step by (cases r) simp_all
qed

lemma expiry_job_inv:
  assumes "\<forall>p\<in>set (DB w). record_ok (snd p)"
  shows "\<forall>p\<in>set (DB (snd (expiry_job e w))). record_ok (snd p)"
proof (cases "DB w = []")
  case True
  then show ?thesis by (simp add: expiry_job_def)
next
  case False
  obtain w1 ch where loop: "sweep_loop e (DB w) (w, False) = (w1, ch)"
    by (cases "sweep_loop e (DB w) (w, False)")
  with sweep_loop_inv [OF assms, of e "DB w" False]
  have "\<forall>p\<in>set (DB w1). record_ok (snd p)" by simp
  with False loop show ?thesis
    by (simp add: expiry_job_def log_effect_def Let_def)
qed

lemma reachable_inv: "reachable cfg w \<Longrightarrow> \<forall>p\<in>set (DB w). record_ok (snd p)"
proof (induction rule: reachable.induct)
  case start
  show ?case by simp
next
  case (payment w e form)
  from payment.IH show ?case by (rule webhook_inv)
next
  case (sweep w e)
  from sweep.IH show ?case by (rule expiry_job_inv)
qed

text \<open>
  Claim C6. In every world reachable from the empty store by webhook deliveries and
  sweeps, each item of the store is a dict that has the field \<^verbatim>\<open>expired_at\<close> iff its
  status is \<^verbatim>\<open>expired\<close>: the sweep sets both together, and an activation replaces the
  whole record by one that is active and has no \<^verbatim>\<open>expired_at\<close>.
\<close>

theorem expired_at_iff_expired:
  assumes "reachable cfg w" and "(uid, rec) \<in> set (DB w)"
  shows "\<exists>fs. rec = PDict fs
           \<and> ((''expired_at'' \<in> fst ` set fs) = (map_of fs ''status'' = Some (PStr ''expired'')))"
proof -
  from reachable_inv [OF assms(1)] assms(2) have "record_ok rec" by auto
  then show ?thesis by (cases rec) (simp_all add: record_ok_def)
qed

lemma paid_world:
  "snd (instamojo_webhook cfg_a env_paid form_a \<lparr>DB = [], disk = [], trace = []\<rparr>) =
     \<lparr>DB = [(''7'', PDict [(''expiry_ts'', PInt 2592100), (''last_payment'', PStr ''T''),
                           (''status'', PStr ''active'')])],
      disk = [(''7'', PDict [(''expiry_ts'', PInt 2592100), (''last_payment'', PStr ''T''),
                           (''status'', PStr ''active'')])],
      trace = [Lookup ''r1'', CreateInvite 600,
               SaveDB [(''7'', PDict [(''expiry_ts'', PInt 2592100), (''last_payment'', PStr ''T''),
                           (''status'', PStr ''active'')])],
               SpawnDM 7 (InviteMsg ''t.me/+x'')]\<rparr>"
proof -
  have h1: "fst (verify_payment env_paid form_a \<lparr>DB = [], disk = [], trace = []\<rparr>) = Verified 7"
    by (rule verify_paid) (simp add: env_paid_def)
  show ?thesis
    unfolding webhook_verified [OF h1]
    by (simp add: activate_def log_effect_def Let_def str_of_7 new_record_def
        env_paid_def cfg_a_def form_req_id_def form_a_def)
qed

lemma swept_world:
  "DB (snd (expiry_job env_far
       (snd (instamojo_webhook cfg_a env_paid form_a \<lparr>DB = [], disk = [], trace = []\<rparr>)))) =
     [(''7'', PDict [(''expiry_ts'', PInt 2592100), (''last_payment'', PStr ''T''),
                           (''status'', PStr ''expired''), (''expired_at'', PStr ''T'')])]"
  unfolding paid_world
  by (simp add: expiry_job_def revoke_record_def is_due_def py_get_def py_int_def int_of_7
      log_effect_def mark_expired_def env_far_def env_paid_def)

theorem expired_at_iff_expired_witness:
  "reachable cfg_a (snd (expiry_job env_far
       (snd (instamojo_webhook cfg_a env_paid form_a \<lparr>DB = [], disk = [], trace = []\<rparr>))))
   \<and> (''7'', PDict [(''expiry_ts'', PInt 2592100), (''last_payment'', PStr ''T''),
                           (''status'', PStr ''expired''), (''expired_at'', PStr ''T'')])
       \<in> set (DB (snd (expiry_job env_far
       (snd (instamojo_webhook cfg_a env_paid form_a \<lparr>DB = [], disk = [], trace = []\<rparr>)))))
   \<and> (\<exists>fs. PDict [(''expiry_ts'', PInt 2592100), (''last_payment'', PStr ''T''),
                           (''status'', PStr ''expired''), (''expired_at'', PStr ''T'')] = PDict fs
           \<and> ((''expired_at'' \<in> fst ` set fs) = (map_of fs ''status'' = Some (PStr ''expired''))))"
proof -
  have r: "reachable cfg_a (snd (expiry_job env_far
       (snd (instamojo_webhook cfg_a env_paid form_a \<lparr>DB = [], disk = [], trace = []\<rparr>))))"
    by (intro reachable.sweep reachable.payment reachable.start)
  have m: "(''7'', PDict [(''expiry_ts'', PInt 2592100), (''last_payment'', PStr ''T''),
                           (''status'', PStr ''expired''), (''expired_at'', PStr ''T'')])
       \<in> set (DB (snd (expiry_job env_far
       (snd (instamojo_webhook cfg_a env_paid form_a \<lparr>DB = [], disk = [], trace = []\<rparr>)))))"
    by (simp add: swept_world)
  from r m expired_at_iff_expired [OF r m] show ?thesis by blast
qed

end
